theory Spec2Isabelle
  imports Main "HOL-Library.AList"
begin

section \<open>The room coordination server (server/src/index.ts)\<close>

text \<open>
  The server keeps one module-level table, \<^verbatim>\<open>const rooms = new Map<string, Room>()\<close>, and
  registers five listeners on every socket: \<^verbatim>\<open>join-room\<close>, \<^verbatim>\<open>signal\<close>, \<^verbatim>\<open>layer-update\<close>,
  \<^verbatim>\<open>capture-trigger\<close> and \<^verbatim>\<open>disconnect\<close>. Every message it sends goes through the socket.io
  server object \<^verbatim>\<open>io\<close>, which has rooms of its own. Both are part of the state.
\<close>

subsection \<open>Data\<close>

text \<open>\<^verbatim>\<open>interface Room { id: string; users: Set<string>; }\<close>\<close>

record room =
  id_room :: string
  users :: "string set"

text \<open>
  The state. \<open>rooms\<close> is the server's \<^verbatim>\<open>Map\<close>, in insertion order (the order
  \<^verbatim>\<open>rooms.forEach\<close> visits it). \<open>io_sockets\<close> and \<open>io_rooms\<close> are the part of socket.io
  the handlers depend on: the identities of the connected sockets, and for each room name
  the sockets in that room in the order they entered it (no socket for a name that is not a
  room). Socket identities and room names are both strings, and \<^verbatim>\<open>io.to(x)\<close> takes either.
\<close>

record server =
  rooms :: "(string \<times> room) list"
  io_sockets :: "string set"
  io_rooms :: "string \<Rightarrow> string list"

definition init :: server where
  "init = \<lparr>rooms = [], io_sockets = {}, io_rooms = (\<lambda>_. [])\<rparr>"

text \<open>
  The payloads the server passes on without looking inside (a handshake signal, a layer
  list, a background descriptor) are JSON values.
\<close>

datatype json =
    JNull
  | JBool bool
  | JNum int
  | JStr string
  | JArr "json list"
  | JObj "(string \<times> json) list"

text \<open>
  What a client sends. \<^verbatim>\<open>background-update\<close> is sent by the editor of the client
  (\<^verbatim>\<open>socket.emit('background-update', { roomId, background, ... })\<close>), which also listens
  for it; the other four are the events the server listens for.
\<close>

datatype client_msg =
    JoinRoom string
  | Signal string json
  | LayerUpdate string json
  | CaptureTrigger string
  | BackgroundUpdate string json

text \<open>What the server sends: the six \<^verbatim>\<open>emit\<close> calls of index.ts.\<close>

datatype server_msg =
    RoomJoined string string
  | UserJoined string
  | UserLeft string
  | SignalFrom string json
  | LayerUpdateTo json
  | CaptureNow int

type_synonym emission = "string \<times> server_msg"

text \<open>
  An event of the server: a socket connects, a message of a connected socket arrives (with
  the reading of \<^verbatim>\<open>Date.now()\<close> while it is handled), a socket disconnects.
\<close>

datatype event =
    Connection string
  | Message string client_msg int
  | Disconnect string

subsection \<open>socket.io, as the handlers use it\<close>

text \<open>\<^verbatim>\<open>Set.add\<close> on the member list of a socket.io room: a socket is in a room once.\<close>

definition set_add :: "'a \<Rightarrow> 'a list \<Rightarrow> 'a list" where
  "set_add x xs = (if x \<in> set xs then xs else xs @ [x])"

text \<open>A socket that connects is registered, and enters the room named by its own identity.\<close>

definition io_connect :: "string \<Rightarrow> server \<Rightarrow> server" where
  "io_connect sid st =
     st\<lparr>io_sockets := insert sid (io_sockets st),
        io_rooms := (io_rooms st)(sid := set_add sid (io_rooms st sid))\<rparr>"

text \<open>\<^verbatim>\<open>socket.join(roomId)\<close>\<close>

definition socket_join :: "string \<Rightarrow> string \<Rightarrow> server \<Rightarrow> server" where
  "socket_join sid roomId st =
     st\<lparr>io_rooms := (io_rooms st)(roomId := set_add sid (io_rooms st roomId))\<rparr>"

text \<open>
  Closing a socket: it leaves every room and is unregistered, before its
  \<^verbatim>\<open>disconnect\<close> listener runs.
\<close>

definition socket_leave_all :: "string \<Rightarrow> server \<Rightarrow> server" where
  "socket_leave_all sid st =
     st\<lparr>io_sockets := io_sockets st - {sid},
        io_rooms := (\<lambda>r. removeAll sid (io_rooms st r))\<rparr>"

text \<open>\<^verbatim>\<open>socket.emit(m)\<close>: to the socket itself.\<close>

definition socket_emit :: "string \<Rightarrow> server_msg \<Rightarrow> emission list" where
  "socket_emit sid m = [(sid, m)]"

text \<open>\<^verbatim>\<open>io.to(r).emit(m)\<close>: to every socket in room \<open>r\<close>.\<close>

definition io_to_emit :: "string \<Rightarrow> server_msg \<Rightarrow> server \<Rightarrow> emission list" where
  "io_to_emit r m st = map (\<lambda>s. (s, m)) (io_rooms st r)"

text \<open>
  \<^verbatim>\<open>socket.to(r).emit(m)\<close>: socket.io 4 broadcasts to room \<open>r\<close> and excepts the room named
  by the identity of the sending socket, that is every socket in that room: the sender,
  and whoever has joined a room of that name. The sender is in that room as long as it is
  connected, and in no room at all once it is closed (when its \<^verbatim>\<open>disconnect\<close> listener
  runs), so it never receives its own broadcast; \<open>s \<noteq> sid\<close> says so for every state.
\<close>

definition socket_to_emit :: "string \<Rightarrow> string \<Rightarrow> server_msg \<Rightarrow> server \<Rightarrow> emission list" where
  "socket_to_emit sid r m st =
     map (\<lambda>s. (s, m)) (filter (\<lambda>s. s \<noteq> sid \<and> s \<notin> set (io_rooms st sid)) (io_rooms st r))"

subsection \<open>The listeners\<close>

text \<open>
  \<^verbatim>\<open>join-room\<close>: create the room when the table has none, add the socket to its users, join
  the socket.io room, acknowledge to the socket and tell the others in the socket.io room.
\<close>

definition on_join_room :: "string \<Rightarrow> string \<Rightarrow> server \<Rightarrow> server \<times> emission list" where
  "on_join_room sid roomId st =
     (let rooms1 = (if map_of (rooms st) roomId = None
                    then AList.update roomId \<lparr>id_room = roomId, users = {}\<rparr> (rooms st)
                    else rooms st);
          rooms2 = (case map_of rooms1 roomId of
                      None \<Rightarrow> rooms1
                    | Some room \<Rightarrow> AList.update roomId (room\<lparr>users := insert sid (users room)\<rparr>) rooms1);
          st2 = socket_join sid roomId (st\<lparr>rooms := rooms2\<rparr>)
      in (st2, socket_emit sid (RoomJoined roomId sid)
               @ socket_to_emit sid roomId (UserJoined sid) st2))"

text \<open>\<^verbatim>\<open>signal\<close>: \<^verbatim>\<open>io.to(to).emit('signal', { from: socket.id, signal })\<close>\<close>

definition on_signal :: "string \<Rightarrow> string \<Rightarrow> json \<Rightarrow> server \<Rightarrow> server \<times> emission list" where
  "on_signal sid to signal st = (st, io_to_emit to (SignalFrom sid signal) st)"

text \<open>\<^verbatim>\<open>layer-update\<close>: \<^verbatim>\<open>socket.to(roomId).emit('layer-update', { layers })\<close>\<close>

definition on_layer_update :: "string \<Rightarrow> string \<Rightarrow> json \<Rightarrow> server \<Rightarrow> server \<times> emission list" where
  "on_layer_update sid roomId layers st = (st, socket_to_emit sid roomId (LayerUpdateTo layers) st)"

text \<open>\<^verbatim>\<open>capture-trigger\<close>: \<^verbatim>\<open>io.to(roomId).emit('capture-now', { timestamp: Date.now() })\<close>\<close>

definition on_capture_trigger :: "int \<Rightarrow> string \<Rightarrow> server \<Rightarrow> server \<times> emission list" where
  "on_capture_trigger now roomId st = (st, io_to_emit roomId (CaptureNow now) st)"

text \<open>
  \<^verbatim>\<open>disconnect\<close>: \<^verbatim>\<open>rooms.forEach\<close> over the keys the table had when the loop started; a
  key whose entry is gone is skipped. For a room that has the socket: delete it from the
  users, tell the socket.io room, delete the room when no user is left.
\<close>

fun forEach_disconnect ::
  "string \<Rightarrow> server \<Rightarrow> string list \<Rightarrow> (string \<times> room) list \<Rightarrow> (string \<times> room) list \<times> emission list"
where
  "forEach_disconnect sid st [] m = (m, [])"
| "forEach_disconnect sid st (roomId # ks) m =
     (case map_of m roomId of
        None \<Rightarrow> forEach_disconnect sid st ks m
      | Some room \<Rightarrow>
          if sid \<in> users room then
            (let room' = room\<lparr>users := users room - {sid}\<rparr>;
                 m1 = AList.update roomId room' m;
                 out = socket_to_emit sid roomId (UserLeft sid) st;
                 m2 = (if users room' = {} then AList.delete roomId m1 else m1);
                 (m', ems) = forEach_disconnect sid st ks m2
             in (m', out @ ems))
          else forEach_disconnect sid st ks m)"

definition on_disconnect :: "string \<Rightarrow> server \<Rightarrow> server \<times> emission list" where
  "on_disconnect sid st =
     (let (m', ems) = forEach_disconnect sid st (map fst (rooms st)) (rooms st)
      in (st\<lparr>rooms := m'\<rparr>, ems))"

text \<open>
  Dispatch. No listener is registered for \<^verbatim>\<open>background-update\<close>, and socket.io drops an
  event that has no listener.
\<close>

fun on_message :: "string \<Rightarrow> int \<Rightarrow> client_msg \<Rightarrow> server \<Rightarrow> server \<times> emission list" where
  "on_message sid now (JoinRoom roomId) st = on_join_room sid roomId st"
| "on_message sid now (Signal to signal) st = on_signal sid to signal st"
| "on_message sid now (LayerUpdate roomId layers) st = on_layer_update sid roomId layers st"
| "on_message sid now (CaptureTrigger roomId) st = on_capture_trigger now roomId st"
| "on_message sid now (BackgroundUpdate roomId bg) st = (st, [])"

fun step :: "server \<Rightarrow> event \<Rightarrow> server \<times> emission list" where
  "step st (Connection sid) = (io_connect sid st, [])"
| "step st (Message sid m now) = on_message sid now m st"
| "step st (Disconnect sid) = on_disconnect sid (socket_leave_all sid st)"

fun run :: "server \<Rightarrow> event list \<Rightarrow> server" where
  "run st [] = st"
| "run st (e # es) = run (fst (step st e)) es"

subsection \<open>Observations\<close>

text \<open>The member set the table holds for a room; empty when the table has no such room.\<close>

definition members_of :: "string \<Rightarrow> server \<Rightarrow> string set" where
  "members_of r st = (case map_of (rooms st) r of None \<Rightarrow> {} | Some room \<Rightarrow> users room)"

text \<open>What one socket receives out of a list of emissions, in order.\<close>

definition received :: "string \<Rightarrow> emission list \<Rightarrow> server_msg list" where
  "received sid ems = map snd (filter (\<lambda>e. fst e = sid) ems)"

definition recipients :: "emission list \<Rightarrow> string set" where
  "recipients ems = fst ` set ems"

subsection \<open>The specification's side\<close>

text \<open>
  The identities that have joined room \<open>r\<close> and not left it, read off the events alone:
  a \<^verbatim>\<open>join-room\<close> for \<open>r\<close> adds its sender, a disconnect removes the socket.
\<close>

fun joined_not_left :: "string \<Rightarrow> string set \<Rightarrow> event list \<Rightarrow> string set" where
  "joined_not_left r S [] = S"
| "joined_not_left r S (Connection s # es) = joined_not_left r S es"
| "joined_not_left r S (Message s m t # es) =
     joined_not_left r (if m = JoinRoom r then insert s S else S) es"
| "joined_not_left r S (Disconnect s # es) = joined_not_left r (S - {s}) es"

text \<open>The room names a socket identity has sent a \<^verbatim>\<open>join-room\<close> for.\<close>

fun rooms_joined :: "string \<Rightarrow> event list \<Rightarrow> string set" where
  "rooms_joined s [] = {}"
| "rooms_joined s (Message s' (JoinRoom r) t # es) =
     (if s' = s then insert r (rooms_joined s es) else rooms_joined s es)"
| "rooms_joined s (e # es) = rooms_joined s es"

text \<open>
  The life cycle socket.io gives a socket: it connects while it is not connected, and its
  messages and its disconnect come while it is connected. \<open>C\<close> is the set of connected
  identities before the events.
\<close>

fun wf_trace :: "string set \<Rightarrow> event list \<Rightarrow> bool" where
  "wf_trace C [] = True"
| "wf_trace C (Connection s # es) = (s \<notin> C \<and> wf_trace (insert s C) es)"
| "wf_trace C (Message s m t # es) = (s \<in> C \<and> wf_trace C es)"
| "wf_trace C (Disconnect s # es) = (s \<in> C \<and> wf_trace (C - {s}) es)"

subsection \<open>Invariants\<close>

text \<open>What the \<^verbatim>\<open>disconnect\<close> listener does to the entry of one room.\<close>

definition strip :: "string \<Rightarrow> room option \<Rightarrow> room option" where
  "strip sid ro = (case ro of None \<Rightarrow> None
     | Some room \<Rightarrow> if sid \<in> users room
         then (if users room - {sid} = {} then None else Some (room\<lparr>users := users room - {sid}\<rparr>))
         else Some room)"

text \<open>
  The table has one entry for a key, every room in it has a user and carries its key as
  \<open>id\<close>.
\<close>

definition rooms_ok :: "server \<Rightarrow> bool" where
  "rooms_ok st \<longleftrightarrow> distinct (map fst (rooms st)) \<and>
     (\<forall>r room. map_of (rooms st) r = Some room \<longrightarrow> users room \<noteq> {} \<and> id_room room = r)"

text \<open>
  A socket.io room lists a socket once, and holds the users the table has for that name,
  and the connected socket of that name.
\<close>

definition io_ok :: "server \<Rightarrow> bool" where
  "io_ok st \<longleftrightarrow> (\<forall>r. distinct (io_rooms st r) \<and>
      set (io_rooms st r) = members_of r st \<union> (if r \<in> io_sockets st then {r} else {}))"

text \<open>The users of every room are connected sockets.\<close>

definition conn_ok :: "server \<Rightarrow> bool" where
  "conn_ok st \<longleftrightarrow> (\<forall>r. members_of r st \<subseteq> io_sockets st)"

section \<open>Properties\<close>

subsection \<open>The table after one listener\<close>

lemma strip_idem: "strip sid (strip sid ro) = strip sid ro"
  by (auto simp: strip_def split: option.splits)

lemma map_of_on_join_room:
  "map_of (rooms (fst (on_join_room sid r st))) =
     (map_of (rooms st))(r \<mapsto> (case map_of (rooms st) r of
          None \<Rightarrow> \<lparr>id_room = r, users = {sid}\<rparr>
        | Some room \<Rightarrow> room\<lparr>users := insert sid (users room)\<rparr>))"
  by (auto simp: on_join_room_def socket_join_def Let_def update_conv' split: option.splits)

lemma members_of_join:
  "members_of r (fst (on_join_room sid r' st)) =
     (if r = r' then insert sid (members_of r st) else members_of r st)"
  by (auto simp: members_of_def map_of_on_join_room split: option.splits)

lemma distinct_on_join_room:
  "distinct (map fst (rooms st)) \<Longrightarrow> distinct (map fst (rooms (fst (on_join_room sid r st))))"
  by (auto simp: on_join_room_def socket_join_def Let_def distinct_update split: option.splits)

lemma io_on_join_room:
  "io_rooms (fst (on_join_room sid r st)) = (io_rooms st)(r := set_add sid (io_rooms st r))"
  "io_sockets (fst (on_join_room sid r st)) = io_sockets st"
  by (simp_all add: on_join_room_def socket_join_def Let_def)

lemma map_of_forEach:
  "map_of (fst (forEach_disconnect sid st ks m)) r =
     (if r \<in> set ks then strip sid (map_of m r) else map_of m r)"
proof (induction ks arbitrary: m)
  case Nil
  show ?case by simp
next
  case (Cons k ks)
  show ?case
  proof (cases "map_of m k")
    case None
    then show ?thesis using Cons.IH [of m] by (auto simp: strip_def)
  next
    case (Some room)
    show ?thesis
    proof (cases "sid \<in> users room")
      case False
      then show ?thesis using Some Cons.IH [of m] by (auto simp: strip_def)
    next
      case True
      let ?room' = "room\<lparr>users := users room - {sid}\<rparr>"
      let ?m1 = "AList.update k ?room' m"
      let ?m2 = "if users ?room' = {} then AList.delete k ?m1 else ?m1"
      have m2: "map_of ?m2 = (map_of m)(k := strip sid (map_of m k))"
        using Some True by (auto simp: strip_def update_conv' delete_conv')
      have "fst (forEach_disconnect sid st (k # ks) m) = fst (forEach_disconnect sid st ks ?m2)"
        using Some True by (simp add: Let_def split_beta)
      then show ?thesis using Cons.IH [of ?m2] m2 by (simp add: strip_idem)
    qed
  qed
qed

lemma distinct_forEach:
  "distinct (map fst m) \<Longrightarrow> distinct (map fst (fst (forEach_disconnect sid st ks m)))"
proof (induction ks arbitrary: m)
  case Nil
  then show ?case by simp
next
  case (Cons k ks)
  then show ?case
    by (auto simp: Let_def split_beta distinct_update distinct_delete split: option.splits)
qed

lemma map_of_on_disconnect:
  "map_of (rooms (fst (on_disconnect sid st))) r = strip sid (map_of (rooms st) r)"
proof -
  have "map_of (rooms (fst (on_disconnect sid st))) r
        = map_of (fst (forEach_disconnect sid st (map fst (rooms st)) (rooms st))) r"
    by (simp add: on_disconnect_def split_beta)
  also have "\<dots> = strip sid (map_of (rooms st) r)"
  proof (cases "r \<in> set (map fst (rooms st))")
    case True
    then show ?thesis by (simp add: map_of_forEach)
  next
    case False
    then have "map_of (rooms st) r = None" by (simp add: map_of_eq_None_iff)
    then show ?thesis using False by (simp add: map_of_forEach strip_def)
  qed
  finally show ?thesis .
qed

lemma members_of_on_disconnect:
  "members_of r (fst (on_disconnect sid st)) = members_of r st - {sid}"
  by (auto simp: members_of_def map_of_on_disconnect strip_def split: option.splits if_splits)

lemma distinct_on_disconnect:
  "distinct (map fst (rooms st)) \<Longrightarrow> distinct (map fst (rooms (fst (on_disconnect sid st))))"
  by (simp add: on_disconnect_def split_beta distinct_forEach)

lemma io_on_disconnect:
  "io_rooms (fst (on_disconnect sid st)) = io_rooms st"
  "io_sockets (fst (on_disconnect sid st)) = io_sockets st"
  by (simp_all add: on_disconnect_def split_beta)

lemma io_leave_all:
  "io_rooms (socket_leave_all sid st) = (\<lambda>r. removeAll sid (io_rooms st r))"
  "io_sockets (socket_leave_all sid st) = io_sockets st - {sid}"
  "rooms (socket_leave_all sid st) = rooms st"
  by (simp_all add: socket_leave_all_def)

lemma io_io_connect:
  "io_rooms (io_connect sid st) = (io_rooms st)(sid := set_add sid (io_rooms st sid))"
  "io_sockets (io_connect sid st) = insert sid (io_sockets st)"
  "rooms (io_connect sid st) = rooms st"
  by (simp_all add: io_connect_def)

lemma members_of_leave_all: "members_of r (socket_leave_all sid st) = members_of r st"
  by (simp add: members_of_def socket_leave_all_def)

lemma members_of_connect: "members_of r (io_connect sid st) = members_of r st"
  by (simp add: members_of_def io_connect_def)

lemma members_of_on_message:
  "members_of r (fst (on_message s t m st)) =
     (if m = JoinRoom r then insert s (members_of r st) else members_of r st)"
  by (cases m)
     (auto simp: members_of_join on_signal_def on_layer_update_def on_capture_trigger_def)

subsection \<open>The invariants hold in every state\<close>

lemma rooms_ok_init: "rooms_ok init"
  by (simp add: rooms_ok_def init_def)

lemma io_ok_init: "io_ok init"
  by (simp add: io_ok_def init_def members_of_def)

lemma rooms_ok_step: "rooms_ok st \<Longrightarrow> rooms_ok (fst (step st e))"
proof (cases e)
  case (Connection s)
  assume "rooms_ok st"
  then show ?thesis using Connection by (simp add: rooms_ok_def io_io_connect)
next
  case (Message s m t)
  assume ok: "rooms_ok st"
  show ?thesis
  proof (cases m)
    case (JoinRoom r)
    then show ?thesis using ok Message
      by (auto simp: rooms_ok_def distinct_on_join_room map_of_on_join_room split: option.splits if_splits)
  qed (use ok Message in \<open>simp_all add: on_signal_def on_layer_update_def on_capture_trigger_def\<close>)
next
  case (Disconnect s)
  assume ok: "rooms_ok st"
  have "rooms_ok (socket_leave_all s st)"
    using ok by (simp add: rooms_ok_def io_leave_all)
  then show ?thesis using Disconnect
    by (auto simp: rooms_ok_def distinct_on_disconnect map_of_on_disconnect strip_def
          split: option.splits if_splits)
qed

lemma set_set_add: "set (set_add x xs) = insert x (set xs)"
  by (auto simp: set_add_def)

lemma distinct_set_add: "distinct xs \<Longrightarrow> distinct (set_add x xs)"
  by (auto simp: set_add_def)

lemma io_ok_step: "io_ok st \<Longrightarrow> io_ok (fst (step st e))"
proof (cases e)
  case (Connection s)
  assume "io_ok st"
  then show ?thesis using Connection
    by (auto simp: io_ok_def members_of_connect set_set_add distinct_set_add io_io_connect)
next
  case (Message s m t)
  assume ok: "io_ok st"
  show ?thesis
  proof (cases m)
    case (JoinRoom r)
    then show ?thesis using ok Message
      by (auto simp: io_ok_def members_of_join io_on_join_room set_set_add distinct_set_add)
  qed (use ok Message in \<open>simp_all add: on_signal_def on_layer_update_def on_capture_trigger_def\<close>)
next
  case (Disconnect s)
  assume ok: "io_ok st"
  then show ?thesis using Disconnect
    by (auto simp: io_ok_def members_of_on_disconnect members_of_leave_all io_on_disconnect
          io_leave_all distinct_removeAll)
qed

lemma rooms_ok_run: "rooms_ok st \<Longrightarrow> rooms_ok (run st evs)"
  by (induction evs arbitrary: st) (simp_all add: rooms_ok_step)

lemma io_ok_run: "io_ok st \<Longrightarrow> io_ok (run st evs)"
  by (induction evs arbitrary: st) (simp_all add: io_ok_step)
lemma run_append: "run st (xs @ ys) = run (run st xs) ys"
  by (induction xs arbitrary: st) simp_all

lemma members_of_run: "members_of r (run st evs) = joined_not_left r (members_of r st) evs"
proof (induction evs arbitrary: st)
  case Nil
  show ?case by simp
next
  case (Cons e evs)
  show ?case
    by (cases e)
       (simp_all add: Cons.IH members_of_connect members_of_on_message
          members_of_on_disconnect members_of_leave_all)
qed

lemma members_of_init: "members_of r init = {}"
  by (simp add: members_of_def init_def)

lemma rooms_ok_reach: "rooms_ok (run init evs)"
  by (simp add: rooms_ok_run rooms_ok_init)

lemma io_ok_reach: "io_ok (run init evs)"
  by (simp add: io_ok_run io_ok_init)

lemma run_snoc: "run st (evs @ [e]) = fst (step (run st evs) e)"
  by (simp add: run_append)

subsection \<open>What a socket receives from a broadcast\<close>

lemma received_broadcast:
  "distinct xs \<Longrightarrow> received s (map (\<lambda>x. (x, m)) xs) = (if s \<in> set xs then [m] else [])"
  by (induction xs) (auto simp: received_def)

lemma received_append: "received s (xs @ ys) = received s xs @ received s ys"
  by (simp add: received_def)

lemma received_io_to_emit:
  "io_ok st \<Longrightarrow> received s (io_to_emit r m st) =
     (if s \<in> members_of r st \<or> (s = r \<and> r \<in> io_sockets st) then [m] else [])"
  by (auto simp: io_to_emit_def received_broadcast io_ok_def)

lemma socket_to_emit_except_room:
  "sid \<in> set (io_rooms st sid) \<or> sid \<notin> set (io_rooms st r) \<Longrightarrow>
   socket_to_emit sid r m st =
     map (\<lambda>s. (s, m)) (filter (\<lambda>s. s \<notin> set (io_rooms st sid)) (io_rooms st r))"
proof -
  assume "sid \<in> set (io_rooms st sid) \<or> sid \<notin> set (io_rooms st r)"
  then have "filter (\<lambda>s. s \<noteq> sid \<and> s \<notin> set (io_rooms st sid)) (io_rooms st r)
           = filter (\<lambda>s. s \<notin> set (io_rooms st sid)) (io_rooms st r)"
    by (intro filter_cong) auto
  then show ?thesis by (simp add: socket_to_emit_def)
qed

lemma received_socket_to_emit:
  "io_ok st \<Longrightarrow> received s (socket_to_emit sid r m st) =
     (if s \<noteq> sid \<and> s \<notin> members_of sid st
         \<and> (s \<in> members_of r st \<or> (s = r \<and> r \<in> io_sockets st)) then [m] else [])"
  by (auto simp: socket_to_emit_def received_broadcast io_ok_def)

lemma recipients_io_to_emit:
  "io_ok st \<Longrightarrow> recipients (io_to_emit r m st) =
     members_of r st \<union> (if r \<in> io_sockets st then {r} else {})"
  by (auto simp: io_to_emit_def recipients_def io_ok_def image_image)

lemma recipients_socket_to_emit:
  "io_ok st \<Longrightarrow> recipients (socket_to_emit sid r m st) =
     (members_of r st \<union> (if r \<in> io_sockets st then {r} else {})) - {sid} - members_of sid st"
  by (auto simp: socket_to_emit_def recipients_def io_ok_def image_image)

subsection \<open>Users are connected sockets\<close>

lemma io_sockets_on_message: "io_sockets (fst (on_message s t m st)) = io_sockets st"
  by (cases m) (simp_all add: io_on_join_room on_signal_def on_layer_update_def on_capture_trigger_def)

lemma conn_ok_run:
  "wf_trace (io_sockets st) evs \<Longrightarrow> conn_ok st \<Longrightarrow> conn_ok (run st evs)"
proof (induction evs arbitrary: st)
  case Nil
  then show ?case by simp
next
  case (Cons e evs)
  show ?case
  proof (cases e)
    case (Connection s)
    have "conn_ok (io_connect s st)"
      using Cons.prems(2) by (auto simp: conn_ok_def members_of_connect io_io_connect)
    then show ?thesis using Cons.prems(1) Connection Cons.IH [of "io_connect s st"]
      by (simp add: io_io_connect)
  next
    case (Message s m t)
    have "conn_ok (fst (on_message s t m st))"
      using Cons.prems Message
      by (auto simp: conn_ok_def members_of_on_message io_sockets_on_message split: if_splits)
    then show ?thesis using Cons.prems(1) Message Cons.IH [of "fst (on_message s t m st)"]
      by (simp add: io_sockets_on_message)
  next
    case (Disconnect s)
    let ?st' = "fst (on_disconnect s (socket_leave_all s st))"
    have "conn_ok ?st'"
      using Cons.prems(2)
      by (auto simp: conn_ok_def members_of_on_disconnect members_of_leave_all io_on_disconnect io_leave_all)
    then show ?thesis using Cons.prems(1) Disconnect Cons.IH [of ?st']
      by (simp add: io_on_disconnect io_leave_all)
  qed
qed

lemma conn_ok_reach:
  assumes "wf_trace {} evs"
  shows "conn_ok (run init evs)"
proof -
  have "io_sockets init = {}" by (simp add: init_def)
  moreover have "conn_ok init" by (simp add: conn_ok_def members_of_init)
  ultimately show ?thesis using assms conn_ok_run [of init evs] by simp
qed

subsection \<open>Joining\<close>

lemma joined_not_left_iff:
  "s \<in> joined_not_left r S evs \<longleftrightarrow>
     (s \<in> S \<and> Disconnect s \<notin> set evs)
     \<or> (\<exists>pre t post. evs = pre @ Message s (JoinRoom r) t # post \<and> Disconnect s \<notin> set post)"
proof (induction evs arbitrary: S)
  case Nil
  show ?case by simp
next
  case (Cons e evs)
  show ?case
  proof (cases e)
    case (Connection c)
    then show ?thesis
      by (simp add: Cons.IH Cons_eq_append_conv) blast
  next
    case (Message c m t)
    then show ?thesis
      by (simp add: Cons.IH Cons_eq_append_conv) blast
  next
    case (Disconnect c)
    then show ?thesis
      by (simp add: Cons.IH Cons_eq_append_conv) blast
  qed
qed

lemma finite_rooms_joined: "finite (rooms_joined s evs)"
  by (induction s evs rule: rooms_joined.induct) simp_all

lemma joined_not_left_rooms_joined:
  "s \<in> joined_not_left r S evs \<Longrightarrow> s \<in> S \<or> r \<in> rooms_joined s evs"
proof (induction evs arbitrary: S)
  case Nil
  then show ?case by simp
next
  case (Cons e evs)
  show ?case
  proof (cases e)
    case (Connection c)
    then show ?thesis using Cons by simp
  next
    case (Message c m t)
    then show ?thesis using Cons.prems Cons.IH [of "if m = JoinRoom r then insert c S else S"]
      by (cases m) (auto split: if_splits)
  next
    case (Disconnect c)
    then show ?thesis using Cons.prems Cons.IH [of "S - {c}"] by auto
  qed
qed

lemma rooms_rejoin:
  "sid \<in> members_of r st \<Longrightarrow> rooms (fst (on_join_room sid r st)) = rooms st"
  by (auto simp: on_join_room_def socket_join_def members_of_def Let_def insert_absorb update_triv
      split: option.splits)

lemma snd_on_join_room:
  "snd (on_join_room sid r st) =
     socket_emit sid (RoomJoined r sid)
     @ socket_to_emit sid r (UserJoined sid) (fst (on_join_room sid r st))"
  by (simp add: on_join_room_def Let_def)

text \<open>The definitions a concrete run is evaluated with.\<close>

lemmas server_eval = init_def io_connect_def on_join_room_def socket_join_def set_add_def
  socket_emit_def socket_to_emit_def io_to_emit_def on_disconnect_def socket_leave_all_def
  on_signal_def on_layer_update_def on_capture_trigger_def members_of_def received_def
  recipients_def Let_def insert_Diff_if

subsection \<open>Room membership\<close>

text \<open>
  C2. For every room and every sequence of events, the member set the table holds for the
  room after the sequence is the set of identities that have joined the room and not
  disconnected since: an identity is in it exactly when the sequence has a \<^verbatim>\<open>join-room\<close>
  of the identity for the room with no disconnect of the identity after it.
\<close>

theorem member_set_tracks_joins:
  "members_of r (run init evs) = joined_not_left r {} evs
   \<and> (s \<in> members_of r (run init evs) \<longleftrightarrow>
        (\<exists>pre t post. evs = pre @ Message s (JoinRoom r) t # post \<and> Disconnect s \<notin> set post))"
  by (simp add: members_of_run members_of_init joined_not_left_iff)

theorem member_set_tracks_joins_witness:
  "members_of ''r''
     (run init [Connection ''a'', Connection ''b'', Message ''a'' (JoinRoom ''r'') 0,
                Message ''b'' (JoinRoom ''r'') 1, Disconnect ''a'']) = {''b''}"
  using member_set_tracks_joins [of "''r''"
          "[Connection ''a'', Connection ''b'', Message ''a'' (JoinRoom ''r'') 0,
            Message ''b'' (JoinRoom ''r'') 1, Disconnect ''a'']" "''b''", THEN conjunct1]
  by (simp add: insert_Diff_if)

text \<open>
  C3. In every state reached from the start, no room of the table has an empty user set.
  When the only member of a room disconnects, the room is gone from the table after that
  step, looking it up gives what it gives in the table that never had it, and the next
  \<^verbatim>\<open>join-room\<close> for its name makes a room with the joining socket as its only user.
\<close>

theorem no_empty_room:
  "(\<forall>(k, room) \<in> set (rooms (run init evs)). users room \<noteq> {})
   \<and> (members_of r (run init evs) = {sid} \<longrightarrow>
        r \<notin> fst ` set (rooms (run init (evs @ [Disconnect sid])))
      \<and> map_of (rooms (run init (evs @ [Disconnect sid]))) r = map_of (rooms init) r
      \<and> members_of r (run init (evs @ [Disconnect sid])) = {}
      \<and> map_of (rooms (run init (evs @ [Disconnect sid, Message s (JoinRoom r) t]))) r
          = Some \<lparr>id_room = r, users = {s}\<rparr>)"
proof (intro conjI impI)
  have ok: "rooms_ok (run init evs)" by (rule rooms_ok_reach)
  show "\<forall>(k, room) \<in> set (rooms (run init evs)). users room \<noteq> {}"
    using ok by (auto simp: rooms_ok_def)
next
  assume one: "members_of r (run init evs) = {sid}"
  let ?st = "run init (evs @ [Disconnect sid])"
  have gone: "members_of r ?st = {}"
    using one by (simp add: run_append members_of_on_disconnect members_of_leave_all)
  show "members_of r ?st = {}" by (rule gone)
  have ok: "rooms_ok ?st" by (rule rooms_ok_reach)
  show none: "map_of (rooms ?st) r = map_of (rooms init) r"
    using gone ok by (auto simp: members_of_def rooms_ok_def init_def split: option.splits)
  show "r \<notin> fst ` set (rooms ?st)"
    using none by (simp add: map_of_eq_None_iff init_def)
  have "run init (evs @ [Disconnect sid, Message s (JoinRoom r) t])
          = fst (on_join_room s r ?st)"
    by (simp add: run_append)
  then show "map_of (rooms (run init (evs @ [Disconnect sid, Message s (JoinRoom r) t]))) r
          = Some \<lparr>id_room = r, users = {s}\<rparr>"
    using none by (simp add: map_of_on_join_room init_def)
qed

theorem no_empty_room_witness:
  "members_of ''r'' (run init [Connection ''a'', Message ''a'' (JoinRoom ''r'') 0]) = {''a''}
   \<and> rooms (run init [Connection ''a'', Message ''a'' (JoinRoom ''r'') 0])
       = [(''r'', \<lparr>id_room = ''r'', users = {''a''}\<rparr>)]
   \<and> rooms (run init ([Connection ''a'', Message ''a'' (JoinRoom ''r'') 0] @ [Disconnect ''a''])) = []
   \<and> map_of (rooms (run init ([Connection ''a'', Message ''a'' (JoinRoom ''r'') 0]
                @ [Disconnect ''a'', Message ''b'' (JoinRoom ''r'') 1]))) ''r''
       = Some \<lparr>id_room = ''r'', users = {''b''}\<rparr>"
  using no_empty_room [of "[Connection ''a'', Message ''a'' (JoinRoom ''r'') 0]" "''r''" "''a''" "''b''" 1]
  by (simp add: server_eval)

text \<open>
  C8, as stated, fails: \<^verbatim>\<open>join-room\<close> never takes the socket out of a room it joined
  before, so a socket that joins \<open>x\<close> and then \<open>y\<close> is a member of both.
\<close>

theorem member_of_two_rooms:
  "''a'' \<in> members_of ''x'' (run init [Connection ''a'', Message ''a'' (JoinRoom ''x'') 0,
                                      Message ''a'' (JoinRoom ''y'') 1])
   \<and> ''a'' \<in> members_of ''y'' (run init [Connection ''a'', Message ''a'' (JoinRoom ''x'') 0,
                                      Message ''a'' (JoinRoom ''y'') 1])
   \<and> ''x'' \<noteq> ''y''"
  by (simp add: server_eval)

text \<open>
  C8, amended. A connection identity that has sent \<^verbatim>\<open>join-room\<close> for at most one room
  name is a member of at most one room of the table, in every state reached from the start.
  And \<^verbatim>\<open>join-room\<close> never takes a connection out of a room it joined earlier: a
  \<^verbatim>\<open>join-room\<close> adds its sender to the room it names and leaves the member set of every
  other room as it was.
\<close>

theorem one_room_when_one_join:
  "(card (rooms_joined s evs) \<le> 1 \<and> s \<in> members_of r1 (run init evs)
      \<and> s \<in> members_of r2 (run init evs) \<longrightarrow> r1 = r2)
   \<and> members_of r (run init (evs @ [Message c (JoinRoom r') t])) =
       (if r' = r then insert c (members_of r (run init evs)) else members_of r (run init evs))"
proof (intro conjI impI)
  assume a: "card (rooms_joined s evs) \<le> 1 \<and> s \<in> members_of r1 (run init evs)
      \<and> s \<in> members_of r2 (run init evs)"
  then have "r1 \<in> rooms_joined s evs" "r2 \<in> rooms_joined s evs"
    using joined_not_left_rooms_joined [of s _ "{}" evs]
    by (auto simp: members_of_run members_of_init)
  then show "r1 = r2"
    using a finite_rooms_joined [of s evs]
    by (metis card_le_Suc0_iff_eq One_nat_def)
next
  show "members_of r (run init (evs @ [Message c (JoinRoom r') t])) =
       (if r' = r then insert c (members_of r (run init evs)) else members_of r (run init evs))"
    by (simp add: run_snoc members_of_join)
qed

theorem one_room_when_one_join_witness:
  "card (rooms_joined ''a'' [Connection ''a'', Message ''a'' (JoinRoom ''x'') 0,
                             Connection ''b'', Message ''b'' (JoinRoom ''y'') 1,
                             Message ''a'' (JoinRoom ''x'') 2]) \<le> 1
   \<and> ''a'' \<in> members_of ''x'' (run init [Connection ''a'', Message ''a'' (JoinRoom ''x'') 0,
                             Connection ''b'', Message ''b'' (JoinRoom ''y'') 1,
                             Message ''a'' (JoinRoom ''x'') 2])
   \<and> ''a'' \<notin> members_of ''y'' (run init [Connection ''a'', Message ''a'' (JoinRoom ''x'') 0,
                             Connection ''b'', Message ''b'' (JoinRoom ''y'') 1,
                             Message ''a'' (JoinRoom ''x'') 2])
   \<and> members_of ''x'' (run init ([Connection ''a'', Message ''a'' (JoinRoom ''x'') 0,
                             Connection ''b'', Message ''b'' (JoinRoom ''y'') 1,
                             Message ''a'' (JoinRoom ''x'') 2] @ [Message ''a'' (JoinRoom ''y'') 3]))
       = {''a''}
   \<and> members_of ''y'' (run init ([Connection ''a'', Message ''a'' (JoinRoom ''x'') 0,
                             Connection ''b'', Message ''b'' (JoinRoom ''y'') 1,
                             Message ''a'' (JoinRoom ''x'') 2] @ [Message ''a'' (JoinRoom ''y'') 3]))
       = {''a'', ''b''}"
proof -
  let ?tr = "[Connection ''a'', Message ''a'' (JoinRoom ''x'') 0,
              Connection ''b'', Message ''b'' (JoinRoom ''y'') 1,
              Message ''a'' (JoinRoom ''x'') 2]"
  have one: "card (rooms_joined ''a'' ?tr) \<le> 1" by simp
  have inx: "''a'' \<in> members_of ''x'' (run init ?tr)" by (simp add: server_eval)
  have mx: "members_of ''x'' (run init ?tr) = {''a''}" by (simp add: server_eval)
  have my: "members_of ''y'' (run init ?tr) = {''b''}" by (simp add: server_eval)
  have "''a'' \<notin> members_of ''y'' (run init ?tr)"
    using one inx
      one_room_when_one_join [where s = "''a''" and evs = ?tr and ?r1.0 = "''x''"
         and ?r2.0 = "''y''", THEN conjunct1]
    by auto
  moreover have "members_of ''x'' (run init (?tr @ [Message ''a'' (JoinRoom ''y'') 3])) = {''a''}"
    using one_room_when_one_join [where evs = ?tr and r = "''x''" and c = "''a''"
         and r' = "''y''" and t = 3, THEN conjunct2, unfolded mx]
    by simp
  moreover have "members_of ''y'' (run init (?tr @ [Message ''a'' (JoinRoom ''y'') 3])) = {''a'', ''b''}"
    using one_room_when_one_join [where evs = ?tr and r = "''y''" and c = "''a''"
         and r' = "''y''" and t = 3, THEN conjunct2, unfolded my]
    by simp
  ultimately show ?thesis using one inx by simp
qed

text \<open>
  C9, as stated, fails: the \<^verbatim>\<open>user-joined\<close> notice goes out with \<^verbatim>\<open>socket.to\<close>, which
  leaves out every socket in the room named by the identity of the sender. Here \<open>c\<close> and
  \<open>a\<close> are members of \<open>r\<close>, \<open>c\<close> has also joined the room named \<open>a\<close>, and \<open>c\<close> receives
  nothing when \<open>a\<close> joins \<open>r\<close> again.
\<close>

theorem rejoin_skips_member:
  "''a'' \<in> members_of ''r'' (run init [Connection ''a'', Connection ''c'',
        Message ''c'' (JoinRoom ''r'') 0, Message ''a'' (JoinRoom ''r'') 1,
        Message ''c'' (JoinRoom ''a'') 2])
   \<and> ''c'' \<in> members_of ''r'' (run init [Connection ''a'', Connection ''c'',
        Message ''c'' (JoinRoom ''r'') 0, Message ''a'' (JoinRoom ''r'') 1,
        Message ''c'' (JoinRoom ''a'') 2])
   \<and> received ''c'' (snd (step (run init [Connection ''a'', Connection ''c'',
        Message ''c'' (JoinRoom ''r'') 0, Message ''a'' (JoinRoom ''r'') 1,
        Message ''c'' (JoinRoom ''a'') 2])
        (Message ''a'' (JoinRoom ''r'') 3))) = []"
  by (simp add: server_eval)

text \<open>
  C9, amended. When an identity that is a member of a room sends \<^verbatim>\<open>join-room\<close> for that
  room again, the member set of the room (the whole table, in fact) stays as it was, and
  every other member of the room still receives one \<^verbatim>\<open>user-joined\<close> naming the
  identity, except the members that have also joined the room named by that identity:
  they receive nothing.
\<close>

theorem rejoin_idempotent:
  assumes "sid \<in> members_of r (run init evs)"
  shows "members_of r (run init (evs @ [Message sid (JoinRoom r) t])) = members_of r (run init evs)
       \<and> rooms (run init (evs @ [Message sid (JoinRoom r) t])) = rooms (run init evs)
       \<and> (\<forall>m \<in> members_of r (run init evs). m \<noteq> sid \<longrightarrow>
            received m (snd (step (run init evs) (Message sid (JoinRoom r) t)))
              = (if m \<in> members_of sid (run init evs) then [] else [UserJoined sid]))"
proof -
  let ?st = "run init evs"
  let ?st' = "fst (on_join_room sid r ?st)"
  have st': "run init (evs @ [Message sid (JoinRoom r) t]) = ?st'"
    by (simp add: run_snoc)
  have io: "io_ok ?st'"
    using io_ok_reach [of "evs @ [Message sid (JoinRoom r) t]"] by (simp only: st')
  have rms: "rooms ?st' = rooms ?st"
    using assms by (rule rooms_rejoin)
  have mem: "members_of x ?st' = members_of x ?st" for x
    by (simp add: members_of_def rms)
  have "received m (snd (on_join_room sid r ?st))
          = (if m \<in> members_of sid ?st then [] else [UserJoined sid])"
    if "m \<in> members_of r ?st" "m \<noteq> sid" for m
  proof -
    have "received m (socket_emit sid (RoomJoined r sid)) = []"
      using that(2) by (simp add: received_def socket_emit_def)
    then show ?thesis
      using that io by (simp add: snd_on_join_room received_append received_socket_to_emit mem)
  qed
  then show ?thesis using mem rms by (simp add: st')
qed

theorem rejoin_idempotent_witness:
  "''a'' \<in> members_of ''r'' (run init [Connection ''a'', Connection ''b'', Connection ''c'',
        Message ''a'' (JoinRoom ''r'') 0, Message ''b'' (JoinRoom ''r'') 1,
        Message ''c'' (JoinRoom ''r'') 2, Message ''c'' (JoinRoom ''a'') 3])
   \<and> rooms (run init ([Connection ''a'', Connection ''b'', Connection ''c'',
        Message ''a'' (JoinRoom ''r'') 0, Message ''b'' (JoinRoom ''r'') 1,
        Message ''c'' (JoinRoom ''r'') 2, Message ''c'' (JoinRoom ''a'') 3]
        @ [Message ''a'' (JoinRoom ''r'') 4]))
     = [(''r'', \<lparr>id_room = ''r'', users = {''a'', ''b'', ''c''}\<rparr>),
        (''a'', \<lparr>id_room = ''a'', users = {''c''}\<rparr>)]
   \<and> received ''b'' (snd (step (run init [Connection ''a'', Connection ''b'', Connection ''c'',
        Message ''a'' (JoinRoom ''r'') 0, Message ''b'' (JoinRoom ''r'') 1,
        Message ''c'' (JoinRoom ''r'') 2, Message ''c'' (JoinRoom ''a'') 3])
        (Message ''a'' (JoinRoom ''r'') 4))) = [UserJoined ''a'']
   \<and> received ''c'' (snd (step (run init [Connection ''a'', Connection ''b'', Connection ''c'',
        Message ''a'' (JoinRoom ''r'') 0, Message ''b'' (JoinRoom ''r'') 1,
        Message ''c'' (JoinRoom ''r'') 2, Message ''c'' (JoinRoom ''a'') 3])
        (Message ''a'' (JoinRoom ''r'') 4))) = []"
proof -
  have h: "''a'' \<in> members_of ''r'' (run init [Connection ''a'', Connection ''b'', Connection ''c'',
        Message ''a'' (JoinRoom ''r'') 0, Message ''b'' (JoinRoom ''r'') 1,
        Message ''c'' (JoinRoom ''r'') 2, Message ''c'' (JoinRoom ''a'') 3])"
    by (simp add: server_eval)
  show ?thesis
    using h rejoin_idempotent [OF h, of 4]
    by (simp add: server_eval insert_commute)
qed

subsection \<open>Signal relay\<close>

text \<open>
  C4, as stated, fails: the signal goes to the socket.io room of the given name, and that
  room holds the members of the table's room of that name as well. Here \<open>a\<close> has joined
  the room named \<open>b\<close> and \<open>b\<close> has disconnected; the signal of \<open>a\<close> for \<open>b\<close> is not dropped,
  it is delivered to \<open>a\<close>.
\<close>

theorem signal_not_dropped:
  "wf_trace {} [Connection ''a'', Connection ''b'', Message ''a'' (JoinRoom ''b'') 0,
                   Disconnect ''b'']
   \<and> ''b'' \<notin> io_sockets (run init [Connection ''a'', Connection ''b'', Message ''a'' (JoinRoom ''b'') 0,
                   Disconnect ''b''])
   \<and> snd (step (run init [Connection ''a'', Connection ''b'', Message ''a'' (JoinRoom ''b'') 0,
                   Disconnect ''b'']) (Message ''a'' (Signal ''b'' (JObj [(''type'', JStr ''offer'')])) 1))
       = [(''a'', SignalFrom ''a'' (JObj [(''type'', JStr ''offer'')]))]"
  by (simp add: server_eval)

text \<open>
  C4, amended. A signal of \<open>A\<close> for \<open>B\<close> with payload \<open>P\<close>: when \<open>B\<close> is connected, \<open>B\<close>
  receives exactly one message, the signal with source \<open>A\<close> and payload \<open>P\<close>; when \<open>B\<close> is
  not connected, \<open>B\<close> receives nothing. In both cases every member of the table's room
  named \<open>B\<close> receives the signal once too, and no other socket receives anything: the
  signal is dropped (nothing is emitted) exactly when \<open>B\<close> is not connected and no room is
  named \<open>B\<close>. Nothing but that signal message is ever emitted (so no error to \<open>A\<close>), and
  the state is unchanged (nothing is queued for later).
\<close>

theorem signal_relay:
  assumes "wf_trace {} evs"
  shows "(B \<in> io_sockets (run init evs) \<longrightarrow>
            received B (snd (step (run init evs) (Message A (Signal B P) t))) = [SignalFrom A P])
       \<and> (B \<notin> io_sockets (run init evs) \<longrightarrow>
            received B (snd (step (run init evs) (Message A (Signal B P) t))) = [])
       \<and> (\<forall>s. s \<noteq> B \<longrightarrow>
            received s (snd (step (run init evs) (Message A (Signal B P) t)))
              = (if s \<in> members_of B (run init evs) then [SignalFrom A P] else []))
       \<and> (snd (step (run init evs) (Message A (Signal B P) t)) = []
            \<longleftrightarrow> B \<notin> io_sockets (run init evs) \<and> members_of B (run init evs) = {})
       \<and> snd ` set (snd (step (run init evs) (Message A (Signal B P) t))) \<subseteq> {SignalFrom A P}
       \<and> fst (step (run init evs) (Message A (Signal B P) t)) = run init evs"
proof -
  let ?st = "run init evs"
  have io: "io_ok ?st" by (rule io_ok_reach)
  have "conn_ok ?st" using assms by (rule conn_ok_reach)
  then have conn: "B \<in> members_of B ?st \<Longrightarrow> B \<in> io_sockets ?st"
    by (auto simp: conn_ok_def)
  have rcv: "received B (io_to_emit B (SignalFrom A P) ?st)
               = (if B \<in> io_sockets ?st then [SignalFrom A P] else [])"
    using io conn by (auto simp: received_io_to_emit)
  have others: "received s (io_to_emit B (SignalFrom A P) ?st)
               = (if s \<in> members_of B ?st then [SignalFrom A P] else [])" if "s \<noteq> B" for s
    using io that by (simp add: received_io_to_emit)
  have seteq: "set (io_rooms ?st B)
        = members_of B ?st \<union> (if B \<in> io_sockets ?st then {B} else {})"
    using io by (simp add: io_ok_def)
  have "(set (io_rooms ?st B) = {})
        = (members_of B ?st \<union> (if B \<in> io_sockets ?st then {B} else {}) = {})"
    by (simp only: seteq)
  also have "\<dots> = (B \<notin> io_sockets ?st \<and> members_of B ?st = {})"
    by auto
  finally have "io_rooms ?st B = [] \<longleftrightarrow> B \<notin> io_sockets ?st \<and> members_of B ?st = {}"
    by simp
  then have none: "io_to_emit B (SignalFrom A P) ?st = []
        \<longleftrightarrow> B \<notin> io_sockets ?st \<and> members_of B ?st = {}"
    by (simp add: io_to_emit_def)
  have only: "snd ` set (io_to_emit B (SignalFrom A P) ?st) \<subseteq> {SignalFrom A P}"
    by (auto simp: io_to_emit_def)
  show ?thesis
    using only none by (simp add: on_signal_def rcv others)
qed

theorem signal_relay_witness:
  "wf_trace {} [Connection ''a'', Connection ''b'', Message ''a'' (JoinRoom ''r'') 0,
                   Message ''b'' (JoinRoom ''r'') 1]
   \<and> received ''b'' (snd (step (run init [Connection ''a'', Connection ''b'', Message ''a'' (JoinRoom ''r'') 0,
                   Message ''b'' (JoinRoom ''r'') 1])
        (Message ''a'' (Signal ''b'' (JObj [(''type'', JStr ''offer'')])) 2)))
       = [SignalFrom ''a'' (JObj [(''type'', JStr ''offer'')])]
   \<and> received ''a'' (snd (step (run init [Connection ''a'', Connection ''b'', Message ''a'' (JoinRoom ''r'') 0,
                   Message ''b'' (JoinRoom ''r'') 1])
        (Message ''a'' (Signal ''b'' (JObj [(''type'', JStr ''offer'')])) 2))) = []
   \<and> snd (step (run init [Connection ''a'', Connection ''b'', Message ''a'' (JoinRoom ''r'') 0,
                   Message ''b'' (JoinRoom ''r'') 1])
        (Message ''a'' (Signal ''c'' (JObj [(''type'', JStr ''offer'')])) 2)) = []
   \<and> received ''b'' (snd (step (run init [Connection ''a'', Connection ''b'', Message ''a'' (JoinRoom ''r'') 0,
                   Message ''b'' (JoinRoom ''r'') 1])
        (Message ''a'' (Signal ''r'' (JObj [(''type'', JStr ''offer'')])) 2)))
       = [SignalFrom ''a'' (JObj [(''type'', JStr ''offer'')])]"
proof -
  have wf: "wf_trace {} [Connection ''a'', Connection ''b'', Message ''a'' (JoinRoom ''r'') 0,
                   Message ''b'' (JoinRoom ''r'') 1]"
    by simp
  show ?thesis
    using wf
      signal_relay [OF wf, of "''b''" "''a''" "JObj [(''type'', JStr ''offer'')]" 2]
      signal_relay [OF wf, of "''c''" "''a''" "JObj [(''type'', JStr ''offer'')]" 2]
      signal_relay [OF wf, of "''r''" "''a''" "JObj [(''type'', JStr ''offer'')]" 2]
    by (simp add: server_eval)
qed

subsection \<open>Capture trigger\<close>

text \<open>
  C5, as stated, fails: the trigger goes to the socket.io room of the given name, and a
  connected socket is in the socket.io room named by its own identity. A trigger that names
  the identity of \<open>b\<close> reaches \<open>b\<close>, which is a member of no room of the table.
\<close>

theorem capture_outside_room:
  "''b'' \<notin> members_of ''b'' (run init [Connection ''a'', Connection ''b''])
   \<and> received ''b'' (snd (step (run init [Connection ''a'', Connection ''b''])
                              (Message ''a'' (CaptureTrigger ''b'') 7))) = [CaptureNow 7]"
  by (simp add: server_eval)

text \<open>
  C5, amended. For every capture trigger naming a room, each member of the room at that
  instant receives exactly one \<^verbatim>\<open>capture-now\<close> with the trigger's timestamp; so does the
  connected socket whose own identity is the room name, if there is one; no other socket
  receives anything.
\<close>

theorem capture_fanout:
  "received s (snd (step (run init evs) (Message A (CaptureTrigger r) now))) =
     (if s \<in> members_of r (run init evs) \<or> (s = r \<and> r \<in> io_sockets (run init evs))
      then [CaptureNow now] else [])"
  using io_ok_reach [of evs] by (simp add: on_capture_trigger_def received_io_to_emit)

theorem capture_fanout_witness:
  "received ''a'' (snd (step
        (run init [Connection ''a'', Connection ''b'', Connection ''c'', Message ''a'' (JoinRoom ''r'') 0,
                   Message ''b'' (JoinRoom ''r'') 1])
        (Message ''a'' (CaptureTrigger ''r'') 7))) = [CaptureNow 7]
   \<and> received ''b'' (snd (step
        (run init [Connection ''a'', Connection ''b'', Connection ''c'', Message ''a'' (JoinRoom ''r'') 0,
                   Message ''b'' (JoinRoom ''r'') 1])
        (Message ''a'' (CaptureTrigger ''r'') 7))) = [CaptureNow 7]
   \<and> received ''c'' (snd (step
        (run init [Connection ''a'', Connection ''b'', Connection ''c'', Message ''a'' (JoinRoom ''r'') 0,
                   Message ''b'' (JoinRoom ''r'') 1])
        (Message ''a'' (CaptureTrigger ''r'') 7))) = []"
  using
    capture_fanout [of "''a''" "[Connection ''a'', Connection ''b'', Connection ''c'',
         Message ''a'' (JoinRoom ''r'') 0, Message ''b'' (JoinRoom ''r'') 1]" "''a''" "''r''" 7]
    capture_fanout [of "''b''" "[Connection ''a'', Connection ''b'', Connection ''c'',
         Message ''a'' (JoinRoom ''r'') 0, Message ''b'' (JoinRoom ''r'') 1]" "''a''" "''r''" 7]
    capture_fanout [of "''c''" "[Connection ''a'', Connection ''b'', Connection ''c'',
         Message ''a'' (JoinRoom ''r'') 0, Message ''b'' (JoinRoom ''r'') 1]" "''a''" "''r''" 7]
  by (simp add: server_eval)

text \<open>
  C10. All the \<^verbatim>\<open>capture-now\<close> notices of one trigger carry the same timestamp, the one
  clock reading of that trigger.
\<close>

theorem capture_same_timestamp:
  "snd ` set (snd (step st (Message A (CaptureTrigger r) now))) \<subseteq> {CaptureNow now}"
  by (auto simp: on_capture_trigger_def io_to_emit_def)

theorem capture_same_timestamp_witness:
  "map snd (snd (step
        (run init [Connection ''a'', Connection ''b'', Message ''a'' (JoinRoom ''r'') 0,
                   Message ''b'' (JoinRoom ''r'') 1])
        (Message ''a'' (CaptureTrigger ''r'') 7))) = [CaptureNow 7, CaptureNow 7]"
  using capture_same_timestamp [of
        "run init [Connection ''a'', Connection ''b'', Message ''a'' (JoinRoom ''r'') 0,
                   Message ''b'' (JoinRoom ''r'') 1]" "''a''" "''r''" 7]
  by (simp add: server_eval)


subsection \<open>Layer and background updates\<close>

text \<open>
  C6, as stated, fails: a layer update goes out with \<^verbatim>\<open>socket.to\<close>, which leaves out
  every socket in the room named by the identity of the sender. Here \<open>c\<close> and \<open>a\<close> are
  members of \<open>r\<close>, \<open>c\<close> has also joined the room named \<open>a\<close>, and \<open>c\<close> receives nothing
  for the layer update of \<open>a\<close>.
\<close>

theorem layer_update_skips_member:
  "''c'' \<in> members_of ''r'' (run init [Connection ''a'', Connection ''c'',
        Message ''c'' (JoinRoom ''r'') 0, Message ''a'' (JoinRoom ''r'') 1,
        Message ''c'' (JoinRoom ''a'') 2])
   \<and> received ''c'' (snd (step (run init [Connection ''a'', Connection ''c'',
        Message ''c'' (JoinRoom ''r'') 0, Message ''a'' (JoinRoom ''r'') 1,
        Message ''c'' (JoinRoom ''a'') 2])
        (Message ''a'' (LayerUpdate ''r'' (JArr [JStr ''l1'', JStr ''l2''])) 3))) = []"
  by (simp add: server_eval)

text \<open>
  C6, amended. A layer update of \<open>S1\<close> for a room gives every member of the room other
  than \<open>S1\<close> exactly the layer list sent, except the members that have also joined the room
  named by the identity of \<open>S1\<close>, which receive nothing; and it gives \<open>S1\<close> nothing. After
  a second layer update, of \<open>S2\<close>, every member that is not \<open>S2\<close> and has not joined the
  room named by the identity of \<open>S2\<close> has received the list of \<open>S2\<close> last and whole: the
  lists are passed on one after the other, never merged.
\<close>

theorem layer_update_fanout:
  "(\<forall>m \<in> members_of r (run init evs). m \<noteq> S1 \<longrightarrow>
       received m (snd (step (run init evs) (Message S1 (LayerUpdate r L1) t1)))
         = (if m \<in> members_of S1 (run init evs) then [] else [LayerUpdateTo L1]))
   \<and> received S1 (snd (step (run init evs) (Message S1 (LayerUpdate r L1) t1))) = []
   \<and> (\<forall>m \<in> members_of r (run init evs). m \<noteq> S2 \<and> m \<notin> members_of S2 (run init evs) \<longrightarrow>
       received m (snd (step (run init evs) (Message S1 (LayerUpdate r L1) t1))
                   @ snd (step (run init (evs @ [Message S1 (LayerUpdate r L1) t1]))
                               (Message S2 (LayerUpdate r L2) t2)))
         = (if m = S1 \<or> m \<in> members_of S1 (run init evs) then [LayerUpdateTo L2]
            else [LayerUpdateTo L1, LayerUpdateTo L2]))"
proof -
  have io: "io_ok (run init evs)" by (rule io_ok_reach)
  have same: "run init (evs @ [Message S1 (LayerUpdate r L1) t1]) = run init evs"
    by (simp add: run_snoc on_layer_update_def)
  have one: "received m (snd (on_layer_update S r L (run init evs)))
      = (if m \<noteq> S \<and> m \<notin> members_of S (run init evs)
            \<and> (m \<in> members_of r (run init evs) \<or> (m = r \<and> r \<in> io_sockets (run init evs)))
         then [LayerUpdateTo L] else [])" for m S L
    using io by (simp add: on_layer_update_def received_socket_to_emit)
  show ?thesis
    by (simp add: same received_append one)
qed

theorem layer_update_fanout_witness:
  "members_of ''r'' (run init [Connection ''a'', Connection ''b'', Connection ''c'',
        Message ''a'' (JoinRoom ''r'') 0, Message ''b'' (JoinRoom ''r'') 1,
        Message ''c'' (JoinRoom ''r'') 2, Message ''c'' (JoinRoom ''a'') 3]) = {''a'', ''b'', ''c''}
   \<and> received ''b'' (snd (step (run init [Connection ''a'', Connection ''b'', Connection ''c'',
        Message ''a'' (JoinRoom ''r'') 0, Message ''b'' (JoinRoom ''r'') 1,
        Message ''c'' (JoinRoom ''r'') 2, Message ''c'' (JoinRoom ''a'') 3])
        (Message ''a'' (LayerUpdate ''r'' (JArr [JStr ''l1'', JStr ''l2''])) 4))
      @ snd (step (run init ([Connection ''a'', Connection ''b'', Connection ''c'',
        Message ''a'' (JoinRoom ''r'') 0, Message ''b'' (JoinRoom ''r'') 1,
        Message ''c'' (JoinRoom ''r'') 2, Message ''c'' (JoinRoom ''a'') 3]
               @ [Message ''a'' (LayerUpdate ''r'' (JArr [JStr ''l1'', JStr ''l2''])) 4]))
        (Message ''c'' (LayerUpdate ''r'' (JArr [JStr ''l3''])) 5)))
     = [LayerUpdateTo (JArr [JStr ''l1'', JStr ''l2'']), LayerUpdateTo (JArr [JStr ''l3''])]
   \<and> received ''a'' (snd (step (run init [Connection ''a'', Connection ''b'', Connection ''c'',
        Message ''a'' (JoinRoom ''r'') 0, Message ''b'' (JoinRoom ''r'') 1,
        Message ''c'' (JoinRoom ''r'') 2, Message ''c'' (JoinRoom ''a'') 3])
        (Message ''a'' (LayerUpdate ''r'' (JArr [JStr ''l1'', JStr ''l2''])) 4))
      @ snd (step (run init ([Connection ''a'', Connection ''b'', Connection ''c'',
        Message ''a'' (JoinRoom ''r'') 0, Message ''b'' (JoinRoom ''r'') 1,
        Message ''c'' (JoinRoom ''r'') 2, Message ''c'' (JoinRoom ''a'') 3]
               @ [Message ''a'' (LayerUpdate ''r'' (JArr [JStr ''l1'', JStr ''l2''])) 4]))
        (Message ''c'' (LayerUpdate ''r'' (JArr [JStr ''l3''])) 5)))
     = [LayerUpdateTo (JArr [JStr ''l3''])]
   \<and> received ''c'' (snd (step (run init [Connection ''a'', Connection ''b'', Connection ''c'',
        Message ''a'' (JoinRoom ''r'') 0, Message ''b'' (JoinRoom ''r'') 1,
        Message ''c'' (JoinRoom ''r'') 2, Message ''c'' (JoinRoom ''a'') 3])
        (Message ''a'' (LayerUpdate ''r'' (JArr [JStr ''l1'', JStr ''l2''])) 4))) = []"
  using layer_update_fanout [of "''r''" "[Connection ''a'', Connection ''b'', Connection ''c'',
        Message ''a'' (JoinRoom ''r'') 0, Message ''b'' (JoinRoom ''r'') 1,
        Message ''c'' (JoinRoom ''r'') 2, Message ''c'' (JoinRoom ''a'') 3]" "''a''" "JArr [JStr ''l1'', JStr ''l2'']" 4
        "''c''" "JArr [JStr ''l3'']" 5]
  by (simp add: server_eval insert_commute)

text \<open>
  C1. A background update sent by a member of a room reaches no other member: after
  \<open>a\<close> and \<open>b\<close> have joined room \<open>r\<close>, \<open>b\<close> receives nothing for the background update
  of \<open>a\<close>, while it receives the layer list for a layer update of \<open>a\<close>.
\<close>

theorem background_update_not_relayed:
  "''b'' \<in> members_of ''r''
      (run init [Connection ''a'', Connection ''b'', Message ''a'' (JoinRoom ''r'') 0,
                 Message ''b'' (JoinRoom ''r'') 1])
   \<and> received ''b'' (snd (step
      (run init [Connection ''a'', Connection ''b'', Message ''a'' (JoinRoom ''r'') 0,
                 Message ''b'' (JoinRoom ''r'') 1])
      (Message ''a'' (BackgroundUpdate ''r'' (JObj [(''background'', JStr ''#ff0000''), (''blur'', JNum 4)])) 2))) = []
   \<and> received ''b'' (snd (step
      (run init [Connection ''a'', Connection ''b'', Message ''a'' (JoinRoom ''r'') 0,
                 Message ''b'' (JoinRoom ''r'') 1])
      (Message ''a'' (LayerUpdate ''r'' (JArr [JStr ''layer-1''])) 2))) = [LayerUpdateTo (JArr [JStr ''layer-1''])]"
  by (simp add: server_eval)

subsection \<open>Where a fan-out goes\<close>

text \<open>
  C7, as stated, fails: the room of a capture trigger or a layer update is the name in the
  message, and the listeners do not look at the rooms of the sender. Here \<open>a\<close> is in room
  \<open>x\<close> only, and its trigger and its layer update for \<open>y\<close> reach \<open>b\<close>, a member of \<open>y\<close>.
\<close>

theorem fanout_reaches_other_room:
  "rooms (run init [Connection ''a'', Connection ''b'', Message ''a'' (JoinRoom ''x'') 0,
                    Message ''b'' (JoinRoom ''y'') 1])
     = [(''x'', \<lparr>id_room = ''x'', users = {''a''}\<rparr>), (''y'', \<lparr>id_room = ''y'', users = {''b''}\<rparr>)]
   \<and> recipients (snd (step (run init [Connection ''a'', Connection ''b'',
                    Message ''a'' (JoinRoom ''x'') 0, Message ''b'' (JoinRoom ''y'') 1])
         (Message ''a'' (CaptureTrigger ''y'') 7))) = {''b''}
   \<and> recipients (snd (step (run init [Connection ''a'', Connection ''b'',
                    Message ''a'' (JoinRoom ''x'') 0, Message ''b'' (JoinRoom ''y'') 1])
         (Message ''a'' (LayerUpdate ''y'' (JArr [JStr ''l1''])) 8))) = {''b''}"
  by (simp add: server_eval)

text \<open>
  C7, amended. In every state reached from the start, the recipients of a capture trigger
  or a layer update are among the members of the room named in the message, whether or not
  the sender is in it, and the connected socket whose own identity is that name; a layer
  update does not reach its sender.
\<close>

theorem fanout_within_named_room:
  "recipients (snd (step (run init evs) (Message A (CaptureTrigger r) t)))
      \<subseteq> members_of r (run init evs) \<union> ({r} \<inter> io_sockets (run init evs))
   \<and> recipients (snd (step (run init evs) (Message A (LayerUpdate r L) t)))
      \<subseteq> (members_of r (run init evs) \<union> ({r} \<inter> io_sockets (run init evs))) - {A}"
  using io_ok_reach [of evs]
  by (auto simp: on_capture_trigger_def on_layer_update_def recipients_io_to_emit
        recipients_socket_to_emit split: if_splits)

theorem fanout_within_named_room_witness:
  "recipients (snd (step (run init [Connection ''a'', Connection ''b'',
                    Message ''a'' (JoinRoom ''x'') 0, Message ''b'' (JoinRoom ''x'') 1])
         (Message ''a'' (CaptureTrigger ''x'') 7))) = {''a'', ''b''}
   \<and> recipients (snd (step (run init [Connection ''a'', Connection ''b'',
                    Message ''a'' (JoinRoom ''x'') 0, Message ''b'' (JoinRoom ''x'') 1])
         (Message ''a'' (LayerUpdate ''x'' (JArr [JStr ''l1''])) 8))) = {''b''}
   \<and> members_of ''x'' (run init [Connection ''a'', Connection ''b'',
                    Message ''a'' (JoinRoom ''x'') 0, Message ''b'' (JoinRoom ''x'') 1]) = {''a'', ''b''}"
  using fanout_within_named_room [of "[Connection ''a'', Connection ''b'',
                    Message ''a'' (JoinRoom ''x'') 0, Message ''b'' (JoinRoom ''x'') 1]"
                    "''a''" "''x''" 7 "JArr [JStr ''l1'']"]
  by (simp add: server_eval insert_commute)

end
